theory Spec2Isabelle
  imports Complex_Main "HOL-Library.Char_ord" "HOL-Library.List_Lexorder"
begin

section \<open>JSON values\<close>

text \<open>
  Values of Go's \<^verbatim>\<open>interface{}\<close> as \<^verbatim>\<open>encoding/json\<close> reads and writes them.
  An object is an association list; \<^verbatim>\<open>map_of\<close> looks a key up. Go's \<^verbatim>\<open>string\<close> is a
  byte sequence and so is \<^typ>\<open>string\<close>; Go's \<^verbatim>\<open>int\<close> fields are only stored and
  compared with zero, so they are \<^typ>\<open>int\<close>; a \<^verbatim>\<open>float64\<close> read from JSON is a
  finite number and is only compared with zero, so it is \<^typ>\<open>real\<close>.
\<close>

datatype json =
    JNull
  | JBool bool
  | JInt int
  | JFloat real
  | JString string
  | JArray "json list"
  | JObject "(string \<times> json) list"

definition hasKey :: "json \<Rightarrow> string \<Rightarrow> bool" where
  "hasKey j k = (case j of JObject kvs \<Rightarrow> map_of kvs k \<noteq> None | _ \<Rightarrow> False)"

definition getField :: "json \<Rightarrow> string \<Rightarrow> json option" where
  "getField j k = (case j of JObject kvs \<Rightarrow> map_of kvs k | _ \<Rightarrow> None)"

section \<open>Request and payload structures\<close>

text \<open>
  The structs of the bridge. Two structs may not share a field name in one theory, so
  each field carries the name of its struct in front.
\<close>

record Message =
  Role :: string
  Content :: string

datatype ContextFilter = ContextFilter (DocsIds: "string list")

record ChatRequest =
  Chat_Model :: string
  Chat_Messages :: "Message list"
  Chat_UseContext :: bool
  Chat_ContextFilter :: "ContextFilter option"
  Chat_IncludeSources :: bool
  Chat_Stream :: bool
  Chat_MaxTokens :: int
  Chat_Temperature :: real

record CompletionRequest =
  Completion_Model :: string
  Completion_Prompt :: string
  Completion_UseContext :: bool
  Completion_ContextFilter :: "ContextFilter option"
  Completion_IncludeSources :: bool
  Completion_MaxTokens :: int
  Completion_Temperature :: real

record ChunksRequest =
  Chunks_Text :: string
  Chunks_ContextFilter :: "ContextFilter option"
  Chunks_Limit :: int
  Chunks_PrevNextChunks :: int

record BridgeConfig =
  Mode :: string
  UseContext :: bool
  SelectedDocs :: "string list"
  MaxTokens :: int
  Temperature :: real

text \<open>The anonymous struct \<^verbatim>\<open>reqData\<close> that \<^verbatim>\<open>chatHandler\<close> decodes the body into.\<close>

record reqData =
  Req_Message :: string
  Config :: BridgeConfig
  SystemPrompt :: string
  History :: "Message list"

text \<open>The variable \<^verbatim>\<open>payload interface{}\<close> holds one of the three request structs.\<close>

datatype payload =
    Chunks ChunksRequest
  | Chat ChatRequest
  | Completion CompletionRequest

section \<open>The mode switch of chatHandler\<close>

text \<open>
  \<^verbatim>\<open>reqData.History[len(reqData.History)-4:]\<close> under the guard \<^verbatim>\<open>len > 4\<close>, the
  whole history otherwise.
\<close>

definition basicHistory :: "Message list \<Rightarrow> Message list" where
  "basicHistory h = (if length h > 4 then drop (length h - 4) h else h)"

text \<open>
  \<^verbatim>\<open>if reqData.SystemPrompt != "" { messages = append(messages, Message{Role: "system",
  Content: reqData.SystemPrompt}) }\<close> on the empty \<^verbatim>\<open>messages\<close>, and the
  \<^verbatim>\<open>Message{Role: "user", Content: reqData.Message}\<close> appended last; both stand in the
  basic and in the default case.
\<close>

definition systemTurn :: "string \<Rightarrow> Message list" where
  "systemTurn sp = (if sp \<noteq> [] then [\<lparr>Role = ''system'', Content = sp\<rparr>] else [])"

definition userTurn :: "string \<Rightarrow> Message list" where
  "userTurn m = [\<lparr>Role = ''user'', Content = m\<rparr>]"

text \<open>
  \<^verbatim>\<open>if len(reqData.Config.SelectedDocs) > 0 { req.ContextFilter =
  &ContextFilter{DocsIds: reqData.Config.SelectedDocs} }\<close> of the search and the
  summarize case; the pointer stays nil otherwise.
\<close>

definition selectedFilter :: "string list \<Rightarrow> ContextFilter option" where
  "selectedFilter docs = (if length docs > 0 then Some (ContextFilter docs) else None)"

text \<open>
  The \<^verbatim>\<open>switch reqData.Config.Mode\<close>: the endpoint and the payload of each case, the
  cases in the source's order and \<^verbatim>\<open>default\<close> last.
\<close>

definition chatPayload :: "reqData \<Rightarrow> string \<times> payload" where
  "chatPayload r =
    (if Mode (Config r) = ''search'' then
       (''/v1/chunks'',
        Chunks \<lparr>Chunks_Text = Req_Message r,
                Chunks_ContextFilter = selectedFilter (SelectedDocs (Config r)),
                Chunks_Limit = 10,
                Chunks_PrevNextChunks = 1\<rparr>)
     else if Mode (Config r) = ''basic'' then
       (''/v1/chat/completions'',
        Chat \<lparr>Chat_Model = ''private-gpt'',
              Chat_Messages =
                systemTurn (SystemPrompt r) @ basicHistory (History r) @ userTurn (Req_Message r),
              Chat_UseContext = False,
              Chat_ContextFilter = None,
              Chat_IncludeSources = False,
              Chat_Stream = False,
              Chat_MaxTokens = MaxTokens (Config r),
              Chat_Temperature = Temperature (Config r)\<rparr>)
     else if Mode (Config r) = ''summarize'' then
       (''/v1/completions'',
        Completion \<lparr>Completion_Model = ''private-gpt'',
              Completion_Prompt =
                ''Please provide a comprehensive summary of the following content: ''
                  @ Req_Message r,
              Completion_UseContext = True,
              Completion_ContextFilter = selectedFilter (SelectedDocs (Config r)),
              Completion_IncludeSources = True,
              Completion_MaxTokens = MaxTokens (Config r),
              Completion_Temperature = Temperature (Config r)\<rparr>)
     else
       (''/v1/chat/completions'',
        Chat \<lparr>Chat_Model = ''private-gpt'',
              Chat_Messages =
                systemTurn (SystemPrompt r) @ History r @ userTurn (Req_Message r),
              Chat_UseContext = UseContext (Config r),
              Chat_ContextFilter =
                (if UseContext (Config r) \<and> length (SelectedDocs (Config r)) > 0
                 then Some (ContextFilter (SelectedDocs (Config r))) else None),
              Chat_IncludeSources = True,
              Chat_Stream = False,
              Chat_MaxTokens = MaxTokens (Config r),
              Chat_Temperature = Temperature (Config r)\<rparr>))"

section \<open>json.Marshal of the payload\<close>

text \<open>
  The encoder writes the fields of a struct in declaration order under the key of the
  field's tag. A field tagged \<^verbatim>\<open>omitempty\<close> is left out when it is a nil pointer, an
  empty slice, or a zero number.
\<close>

definition omitempty :: "string \<Rightarrow> bool \<Rightarrow> json \<Rightarrow> (string \<times> json) list" where
  "omitempty k isEmpty v = (if isEmpty then [] else [(k, v)])"

definition marshalMessage :: "Message \<Rightarrow> json" where
  "marshalMessage m = JObject [(''role'', JString (Role m)), (''content'', JString (Content m))]"

definition marshalContextFilter :: "ContextFilter \<Rightarrow> json" where
  "marshalContextFilter f =
     JObject (omitempty ''docs_ids'' (DocsIds f = []) (JArray (map JString (DocsIds f))))"

definition optContextFilter :: "ContextFilter option \<Rightarrow> (string \<times> json) list" where
  "optContextFilter cf =
     (case cf of None \<Rightarrow> [] | Some f \<Rightarrow> [(''context_filter'', marshalContextFilter f)])"

definition marshalChatRequest :: "ChatRequest \<Rightarrow> json" where
  "marshalChatRequest c = JObject (
     [(''model'', JString (Chat_Model c)),
      (''messages'', JArray (map marshalMessage (Chat_Messages c))),
      (''use_context'', JBool (Chat_UseContext c))]
     @ optContextFilter (Chat_ContextFilter c)
     @ [(''include_sources'', JBool (Chat_IncludeSources c)),
        (''stream'', JBool (Chat_Stream c))]
     @ omitempty ''max_tokens'' (Chat_MaxTokens c = 0) (JInt (Chat_MaxTokens c))
     @ omitempty ''temperature'' (Chat_Temperature c = 0) (JFloat (Chat_Temperature c)))"

definition marshalCompletionRequest :: "CompletionRequest \<Rightarrow> json" where
  "marshalCompletionRequest c = JObject (
     [(''model'', JString (Completion_Model c)),
      (''prompt'', JString (Completion_Prompt c)),
      (''use_context'', JBool (Completion_UseContext c))]
     @ optContextFilter (Completion_ContextFilter c)
     @ [(''include_sources'', JBool (Completion_IncludeSources c))]
     @ omitempty ''max_tokens'' (Completion_MaxTokens c = 0) (JInt (Completion_MaxTokens c))
     @ omitempty ''temperature'' (Completion_Temperature c = 0)
         (JFloat (Completion_Temperature c)))"

definition marshalChunksRequest :: "ChunksRequest \<Rightarrow> json" where
  "marshalChunksRequest c = JObject (
     [(''text'', JString (Chunks_Text c))]
     @ optContextFilter (Chunks_ContextFilter c)
     @ omitempty ''limit'' (Chunks_Limit c = 0) (JInt (Chunks_Limit c))
     @ omitempty ''prev_next_chunks'' (Chunks_PrevNextChunks c = 0)
         (JInt (Chunks_PrevNextChunks c)))"

definition marshal :: "payload \<Rightarrow> json" where
  "marshal p =
     (case p of
        Chunks c \<Rightarrow> marshalChunksRequest c
      | Chat c \<Rightarrow> marshalChatRequest c
      | Completion c \<Rightarrow> marshalCompletionRequest c)"

text \<open>The bytes \<^verbatim>\<open>chatHandler\<close> posts upstream, as a JSON value.\<close>

definition upstreamJSON :: "reqData \<Rightarrow> json" where
  "upstreamJSON r = marshal (snd (chatPayload r))"

section \<open>The file list and its deduplicated view\<close>

text \<open>
  \<^verbatim>\<open>DocMetadata map[string]interface{}\<close> is \<^verbatim>\<open>nil\<close> when the JSON has no
  \<^verbatim>\<open>doc_metadata\<close> or has \<^verbatim>\<open>null\<close> there.
\<close>

record FileInfo =
  DocID :: string
  DocMetadata :: "(string \<rightharpoonup> json) option"

record ListFilesResponse =
  Object :: string
  Model :: string
  Data :: "FileInfo list"

text \<open>
  The block that \<^verbatim>\<open>listFilesHandler\<close> and \<^verbatim>\<open>deleteAllFilesHandler\<close> both
  write out in line:
  \<^verbatim>\<open>fileName := "Unknown"; if file.DocMetadata != nil {
      if name, ok := file.DocMetadata["file_name"].(string); ok { fileName = name } }\<close>
  The type assertion succeeds only on a JSON string.
\<close>

definition fileName :: "FileInfo \<Rightarrow> string" where
  "fileName file =
     (case DocMetadata file of
        None \<Rightarrow> ''Unknown''
      | Some md \<Rightarrow>
          (case md ''file_name'' of
             Some (JString name) \<Rightarrow> name
           | _ \<Rightarrow> ''Unknown''))"

text \<open>
  The body of the loop over \<^verbatim>\<open>listResp.Data\<close>. Go compares strings byte by byte,
  which is the lexicographic order on \<^typ>\<open>string\<close>.
\<close>

definition dedupStep :: "(string \<rightharpoonup> FileInfo) \<Rightarrow> FileInfo \<Rightarrow> (string \<rightharpoonup> FileInfo)" where
  "dedupStep fileMap file =
     (case fileMap (fileName file) of
        Some existing \<Rightarrow>
          (if DocID file > DocID existing then fileMap(fileName file \<mapsto> file) else fileMap)
      | None \<Rightarrow> fileMap(fileName file \<mapsto> file))"

definition deduplicate :: "FileInfo list \<Rightarrow> (string \<rightharpoonup> FileInfo)" where
  "deduplicate data = foldl dedupStep Map.empty data"

section \<open>HTTP responses and upstream calls\<close>

datatype body = Text string | Json json | Raw string

record Response =
  StatusCode :: int
  Body :: body

datatype upstreamCall = GET string | POST string | DELETE string

text \<open>\<^verbatim>\<open>fmt.Sprintf("%d", n)\<close>.\<close>

fun digits :: "nat \<Rightarrow> string" where
  "digits n =
     (if n < 10 then [char_of (48 + n)] else digits (n div 10) @ [char_of (48 + n mod 10)])"

definition itoa :: "int \<Rightarrow> string" where
  "itoa i = (if i < 0 then CHR ''-'' # digits (nat (- i)) else digits (nat i))"

section \<open>Delete-all\<close>

text \<open>
  What the upstream does is a parameter. The list fetch either fails, or answers with a
  status and a body that decodes or does not. Each delete either fails to build its
  request, fails on the network, or answers with a status; the answer may depend on the
  position in the loop and on the document id.
\<close>

datatype listResult = GetError string | GetResponse int "string + ListFilesResponse"

datatype deleteOutcome = RequestError | NetworkError | Status int

record deleteState =
  deletedCount :: int
  failedCount :: int
  failedFiles :: "string list"
  calls :: "upstreamCall list"

definition recordFailure :: "deleteState \<Rightarrow> FileInfo \<Rightarrow> deleteState" where
  "recordFailure s file = s\<lparr>failedCount := failedCount s + 1,
                    failedFiles := failedFiles s @ [fileName file]\<rparr>"

definition issue :: "deleteState \<Rightarrow> FileInfo \<Rightarrow> deleteState" where
  "issue s file = s\<lparr>calls := calls s @ [DELETE (''/v1/ingest/'' @ DocID file)]\<rparr>"

text \<open>One iteration of \<^verbatim>\<open>for _, file := range listResp.Data\<close>.\<close>

definition deleteStep :: "deleteOutcome \<Rightarrow> deleteState \<Rightarrow> FileInfo \<Rightarrow> deleteState" where
  "deleteStep outcome s file =
     (case outcome of
        RequestError \<Rightarrow> recordFailure s file
      | NetworkError \<Rightarrow> recordFailure (issue s file) file
      | Status code \<Rightarrow>
          (if code = 200 then (issue s file)\<lparr>deletedCount := deletedCount s + 1\<rparr>
           else recordFailure (issue s file) file))"

fun deleteLoop ::
  "(nat \<Rightarrow> string \<Rightarrow> deleteOutcome) \<Rightarrow> nat \<Rightarrow> deleteState \<Rightarrow> FileInfo list \<Rightarrow> deleteState" where
  "deleteLoop upstream i s [] = s"
| "deleteLoop upstream i s (file # files) =
     deleteLoop upstream (Suc i) (deleteStep (upstream i (DocID file)) s file) files"

definition deleteAllFilesHandler ::
  "string \<Rightarrow> listResult \<Rightarrow> (nat \<Rightarrow> string \<Rightarrow> deleteOutcome) \<Rightarrow> Response \<times> upstreamCall list" where
  "deleteAllFilesHandler method list upstream =
     (if method \<noteq> ''DELETE'' then
        (\<lparr>StatusCode = 405, Body = Text ''Method not allowed''\<rparr>, [])
      else case list of
        GetError err \<Rightarrow>
          (\<lparr>StatusCode = 502, Body = Json (JObject
              [(''success'', JBool False),
               (''error'', JString ''Failed to get file list from PrivateGPT''),
               (''details'', JString err)])\<rparr>,
           [GET ''/v1/ingest/list''])
      | GetResponse code decoded \<Rightarrow>
          (if code \<noteq> 200 then
             (\<lparr>StatusCode = code, Body = Json (JObject
                 [(''success'', JBool False),
                  (''error'', JString (''PrivateGPT error getting file list (status ''
                                         @ itoa code @ '')''))])\<rparr>,
              [GET ''/v1/ingest/list''])
           else case decoded of
             Inl err \<Rightarrow>
               (\<lparr>StatusCode = 500, Body = Json (JObject
                   [(''success'', JBool False),
                    (''error'', JString ''Failed to parse file list''),
                    (''details'', JString err)])\<rparr>,
                [GET ''/v1/ingest/list''])
           | Inr listResp \<Rightarrow>
               (if length (Data listResp) = 0 then
                  (\<lparr>StatusCode = 200, Body = Json (JObject
                      [(''success'', JBool True),
                       (''message'', JString ''No files to delete''),
                       (''deleted_count'', JInt 0),
                       (''failed_count'', JInt 0)])\<rparr>,
                   [GET ''/v1/ingest/list''])
                else
                  (let s = deleteLoop upstream 0
                             \<lparr>deletedCount = 0, failedCount = 0, failedFiles = [],
                              calls = [GET ''/v1/ingest/list'']\<rparr>
                             (Data listResp)
                   in (\<lparr>StatusCode = 200, Body = Json (JObject
                         ([(''success'', JBool True),
                           (''message'', JString (''Bulk delete completed: ''
                              @ itoa (deletedCount s) @ '' deleted, ''
                              @ itoa (failedCount s) @ '' failed'')),
                           (''deleted_count'', JInt (deletedCount s)),
                           (''failed_count'', JInt (failedCount s)),
                           (''total_files'', JInt (int (length (Data listResp))))]
                          @ (if length (failedFiles s) > 0
                             then [(''failed_files'', JArray (map JString (failedFiles s)))]
                             else [])))\<rparr>,
                       calls s)))))"

section \<open>Upload\<close>

definition MAX_FILE_SIZE :: int where
  "MAX_FILE_SIZE = 50 * 2 ^ 20"

text \<open>
  A multipart body as the parser of Go's standard library sees it: one it rejects
  (not multipart, cut short, or with more non-file data than the parser keeps), or the
  file parts it reads, each with its form field, its file name and the length of its
  content. The content itself is only copied, so the model keeps its length.
\<close>

datatype multipartBody = Unparseable | Files "(string \<times> string \<times> nat) list"

datatype storage = InMemory | OnDisk

record FileHeader =
  Filename :: string
  Size :: int
  Stored :: storage

text \<open>
  \<^verbatim>\<open>Request.ParseMultipartForm(maxMemory)\<close> of \<^verbatim>\<open>net/http\<close>, after its
  documentation: \<open>The whole request body is parsed and up to a total of maxMemory bytes
  of its file parts are stored in memory, with the remainder stored on disk in temporary
  files.\<close> The argument chooses where a file part is kept; no length of a file part
  makes the call return an error. The parser does return an error when the body has
  more than 1000 parts (the default of its \<^verbatim>\<open>multipartmaxparts\<close> setting); the list
  \<^verbatim>\<open>Files\<close> holds the file parts, so a list longer than that is refused, and a body
  that passes the bound only without its non-file parts counts as \<^verbatim>\<open>Unparseable\<close>.
  The file name of a part is the base name the parser hands out as
  \<^verbatim>\<open>header.Filename\<close>.
\<close>

fun readForm :: "int \<Rightarrow> (string \<times> string \<times> nat) list \<Rightarrow> (string \<times> FileHeader) list" where
  "readForm maxMemory [] = []"
| "readForm maxMemory ((name, filename, n) # ps) =
     (if int n > maxMemory
      then (name, \<lparr>Filename = filename, Size = int n, Stored = OnDisk\<rparr>) # readForm maxMemory ps
      else (name, \<lparr>Filename = filename, Size = int n, Stored = InMemory\<rparr>)
             # readForm (maxMemory - int n) ps)"

definition ParseMultipartForm :: "int \<Rightarrow> multipartBody \<Rightarrow> (string \<times> FileHeader) list option" where
  "ParseMultipartForm maxMemory b =
     (case b of
        Unparseable \<Rightarrow> None
      | Files ps \<Rightarrow> if length ps > 1000 then None else Some (readForm maxMemory ps))"

text \<open>\<^verbatim>\<open>r.FormFile(key)\<close>: the first file of the form under the key.\<close>

definition FormFile :: "(string \<times> FileHeader) list \<Rightarrow> string \<Rightarrow> FileHeader option" where
  "FormFile form key = map_of form key"

text \<open>
  \<^verbatim>\<open>filepath.Ext\<close>: the suffix from the last dot of the last path element, empty when
  that element has no dot. The scan runs from the end of the path and stops at a
  separator.
\<close>

fun extScan :: "string \<Rightarrow> string \<Rightarrow> string" where
  "extScan [] suffix = []"
| "extScan (c # cs) suffix =
     (if c = CHR ''/'' then []
      else if c = CHR ''.'' then c # suffix
      else extScan cs (c # suffix))"

definition Ext :: "string \<Rightarrow> string" where
  "Ext path = extScan (rev path) []"

text \<open>
  \<^verbatim>\<open>strings.ToLower\<close>: on a string of ASCII bytes, \<^verbatim>\<open>c += 'a' - 'A'\<close> for each
  upper-case byte; on any other string the Unicode mapping of the runes, which is a
  parameter here.
\<close>

definition lowerByte :: "char \<Rightarrow> char" where
  "lowerByte c =
     (if CHR ''A'' \<le> c \<and> c \<le> CHR ''Z'' then char_of (of_char c + (32::nat)) else c)"

definition isASCII :: "string \<Rightarrow> bool" where
  "isASCII s = list_all (\<lambda>c. of_char c < (128::nat)) s"

definition ToLower :: "(string \<Rightarrow> string) \<Rightarrow> string \<Rightarrow> string" where
  "ToLower unicodeLower s = (if isASCII s then map lowerByte s else unicodeLower s)"

definition allowedExts :: "string list" where
  "allowedExts =
     [''.pdf'', ''.docx'', ''.doc'', ''.txt'',
      ''.md'', ''.html'', ''.csv'', ''.json'',
      ''.pptx'', ''.ppt'', ''.epub'', ''.ipynb'']"

text \<open>
  What the handler cannot decide by itself: the three calls after the extension check
  that return an error, the answer of \<^verbatim>\<open>client.Do\<close>, and the Unicode lower-casing.
\<close>

datatype doResult = DoError | DoResponse int string

record uploadEnv =
  createFormFileErr :: bool
  copyErr :: bool
  newRequestErr :: bool
  doResult :: doResult
  unicodeLower :: "string \<Rightarrow> string"

definition uploadHandler ::
  "uploadEnv \<Rightarrow> string \<Rightarrow> multipartBody \<Rightarrow> Response \<times> upstreamCall list" where
  "uploadHandler env method reqBody =
     (if method \<noteq> ''POST'' then
        (\<lparr>StatusCode = 405, Body = Text ''Method not allowed''\<rparr>, [])
      else case ParseMultipartForm MAX_FILE_SIZE reqBody of
        None \<Rightarrow> (\<lparr>StatusCode = 400, Body = Text ''File too large or invalid''\<rparr>, [])
      | Some form \<Rightarrow>
          (case FormFile form ''file'' of
             None \<Rightarrow> (\<lparr>StatusCode = 400, Body = Text ''No file provided''\<rparr>, [])
           | Some header \<Rightarrow>
               (if ToLower (unicodeLower env) (Ext (Filename header)) \<notin> set allowedExts then
                  (\<lparr>StatusCode = 400, Body = Text ''File type not supported''\<rparr>, [])
                else if createFormFileErr env \<or> copyErr env \<or> newRequestErr env then
                  (\<lparr>StatusCode = 500, Body = Text ''Internal server error''\<rparr>, [])
                else case doResult env of
                  DoError \<Rightarrow>
                    (\<lparr>StatusCode = 502, Body = Text ''PrivateGPT API error''\<rparr>,
                     [POST ''/v1/ingest/file''])
                | DoResponse code upstreamBody \<Rightarrow>
                    (\<lparr>StatusCode = code, Body = Raw upstreamBody\<rparr>,
                     [POST ''/v1/ingest/file'']))))"

section \<open>Reading a response, and the inputs of the worked examples\<close>

definition jsonBody :: "Response \<Rightarrow> json" where
  "jsonBody resp = (case Body resp of Json j \<Rightarrow> j | _ \<Rightarrow> JNull)"

text \<open>A search request with a system prompt's place empty and one selected document.\<close>

definition searchRequest :: reqData where
  "searchRequest =
     \<lparr>Req_Message = ''invoice total'',
      Config = \<lparr>Mode = ''search'', UseContext = True, SelectedDocs = [''d1''],
                MaxTokens = 0, Temperature = 0\<rparr>,
      SystemPrompt = [], History = []\<rparr>"

definition turn :: "string \<Rightarrow> string \<Rightarrow> Message" where
  "turn who what = \<lparr>Role = who, Content = what\<rparr>"

text \<open>A chat request with a system prompt and six turns of history.\<close>

definition longChat :: "string \<Rightarrow> reqData" where
  "longChat mode =
     \<lparr>Req_Message = ''and then?'',
      Config = \<lparr>Mode = mode, UseContext = True, SelectedDocs = [''d1'', ''d2''],
                MaxTokens = 256, Temperature = 0\<rparr>,
      SystemPrompt = ''be brief'',
      History = [turn ''user'' ''q1'', turn ''assistant'' ''a1'',
                 turn ''user'' ''q2'', turn ''assistant'' ''a2'',
                 turn ''user'' ''q3'', turn ''assistant'' ''a3'']\<rparr>"

text \<open>File records: two under one name with different ids; two that share name and id
  and differ in another metadata entry, and one of the same name with a lesser id; one
  whose \<^verbatim>\<open>file_name\<close> is a number; and one without metadata.\<close>

definition named :: "string \<Rightarrow> string \<Rightarrow> FileInfo" where
  "named d n = \<lparr>DocID = d, DocMetadata = Some [''file_name'' \<mapsto> JString n]\<rparr>"

definition older :: FileInfo where
  "older = named ''a'' ''notes.txt''"

definition newer :: FileInfo where
  "newer = named ''b'' ''notes.txt''"

definition pageOne :: FileInfo where
  "pageOne = \<lparr>DocID = ''c0ffee'',
     DocMetadata = Some [''file_name'' \<mapsto> JString ''report.pdf'',
                         ''page_label'' \<mapsto> JString ''1'']\<rparr>"

definition pageTwo :: FileInfo where
  "pageTwo = \<lparr>DocID = ''c0ffee'',
     DocMetadata = Some [''file_name'' \<mapsto> JString ''report.pdf'',
                         ''page_label'' \<mapsto> JString ''2'']\<rparr>"

definition draft :: FileInfo where
  "draft = named ''c0ffed'' ''report.pdf''"

definition numbered :: FileInfo where
  "numbered = \<lparr>DocID = ''ffff'', DocMetadata = Some [''file_name'' \<mapsto> JFloat 7]\<rparr>"

definition nameless :: FileInfo where
  "nameless = \<lparr>DocID = ''d3'', DocMetadata = None\<rparr>"

text \<open>An upstream list of five records, and an upstream that refuses the connection of
  the second delete and answers 404 for the document \<^verbatim>\<open>d3\<close>.\<close>

definition fiveFiles :: ListFilesResponse where
  "fiveFiles = \<lparr>Object = ''list'', Model = ''private-gpt'',
     Data = [named ''d0'' ''a.pdf'', named ''d1'' ''b.pdf'', named ''d2'' ''c.pdf'',
             nameless, named ''d4'' ''e.pdf'']\<rparr>"

definition twoFail :: "nat \<Rightarrow> string \<Rightarrow> deleteOutcome" where
  "twoFail i d = (if i = 1 then NetworkError else if d = ''d3'' then Status 404 else Status 200)"

definition noFiles :: ListFilesResponse where
  "noFiles = \<lparr>Object = ''list'', Model = ''private-gpt'', Data = []\<rparr>"

text \<open>An environment in which nothing after the extension check goes wrong and the
  upstream answers 200.\<close>

definition quietEnv :: uploadEnv where
  "quietEnv = \<lparr>createFormFileErr = False, copyErr = False, newRequestErr = False,
               doResult = DoResponse 200 ''{}'', unicodeLower = (\<lambda>s. s)\<rparr>"

section \<open>Looking a key up in an encoded object\<close>

lemma getField_Cons:
  "getField (JObject ((k, v) # kvs)) k' = (if k' = k then Some v else getField (JObject kvs) k')"
  by (simp add: getField_def)

lemma getField_Nil: "getField (JObject []) k = None"
  by (simp add: getField_def)

lemma getField_append:
  "getField (JObject (xs @ ys)) k =
     (case getField (JObject xs) k of None \<Rightarrow> getField (JObject ys) k | Some v \<Rightarrow> Some v)"
  by (simp add: getField_def map_add_def split: option.split)

lemma hasKey_getField: "hasKey j k \<longleftrightarrow> getField j k \<noteq> None"
  by (cases j) (simp_all add: hasKey_def getField_def)

lemma getField_omitempty:
  "getField (JObject (omitempty k e v)) k' = (if \<not> e \<and> k' = k then Some v else None)"
  by (simp add: omitempty_def getField_def)

lemma getField_optContextFilter:
  "getField (JObject (optContextFilter cf)) k =
     (if k = ''context_filter'' then map_option marshalContextFilter cf else None)"
  by (cases cf) (simp_all add: optContextFilter_def getField_def)

lemmas getField_simps =
  getField_Cons getField_Nil getField_append getField_omitempty getField_optContextFilter

section \<open>The four branches of the mode switch\<close>

lemma chatPayload_search:
  "Mode (Config r) = ''search'' \<Longrightarrow>
   chatPayload r =
     (''/v1/chunks'',
      Chunks \<lparr>Chunks_Text = Req_Message r,
              Chunks_ContextFilter = selectedFilter (SelectedDocs (Config r)),
              Chunks_Limit = 10, Chunks_PrevNextChunks = 1\<rparr>)"
  by (simp add: chatPayload_def)

lemma chatPayload_basic:
  "Mode (Config r) = ''basic'' \<Longrightarrow>
   chatPayload r =
     (''/v1/chat/completions'',
      Chat \<lparr>Chat_Model = ''private-gpt'',
            Chat_Messages =
              systemTurn (SystemPrompt r) @ basicHistory (History r) @ userTurn (Req_Message r),
            Chat_UseContext = False, Chat_ContextFilter = None,
            Chat_IncludeSources = False, Chat_Stream = False,
            Chat_MaxTokens = MaxTokens (Config r),
            Chat_Temperature = Temperature (Config r)\<rparr>)"
  by (simp add: chatPayload_def)

lemma chatPayload_summarize:
  "Mode (Config r) = ''summarize'' \<Longrightarrow>
   chatPayload r =
     (''/v1/completions'',
      Completion \<lparr>Completion_Model = ''private-gpt'',
            Completion_Prompt =
              ''Please provide a comprehensive summary of the following content: ''
                @ Req_Message r,
            Completion_UseContext = True,
            Completion_ContextFilter = selectedFilter (SelectedDocs (Config r)),
            Completion_IncludeSources = True,
            Completion_MaxTokens = MaxTokens (Config r),
            Completion_Temperature = Temperature (Config r)\<rparr>)"
  by (simp add: chatPayload_def)

lemma chatPayload_default:
  "Mode (Config r) \<noteq> ''search'' \<Longrightarrow> Mode (Config r) \<noteq> ''basic'' \<Longrightarrow>
   Mode (Config r) \<noteq> ''summarize'' \<Longrightarrow>
   chatPayload r =
     (''/v1/chat/completions'',
      Chat \<lparr>Chat_Model = ''private-gpt'',
            Chat_Messages = systemTurn (SystemPrompt r) @ History r @ userTurn (Req_Message r),
            Chat_UseContext = UseContext (Config r),
            Chat_ContextFilter =
              (if UseContext (Config r) \<and> length (SelectedDocs (Config r)) > 0
               then Some (ContextFilter (SelectedDocs (Config r))) else None),
            Chat_IncludeSources = True, Chat_Stream = False,
            Chat_MaxTokens = MaxTokens (Config r),
            Chat_Temperature = Temperature (Config r)\<rparr>)"
  by (simp add: chatPayload_def)

section \<open>Basic mode carries no document context\<close>

text \<open>
  Claim C1. For every chat request whose mode is \<^verbatim>\<open>basic\<close>, whatever
  \<^verbatim>\<open>use_context\<close> and \<^verbatim>\<open>selected_docs\<close> the configuration holds, the payload is a
  chat request with \<^verbatim>\<open>UseContext\<close> false, \<^verbatim>\<open>IncludeSources\<close> false and a nil
  context filter, and the JSON posted upstream has \<^verbatim>\<open>use_context\<close> false,
  \<^verbatim>\<open>include_sources\<close> false and no \<^verbatim>\<open>context_filter\<close> key.
\<close>

theorem basic_no_context:
  assumes "Mode (Config r) = ''basic''"
  shows "\<exists>c. chatPayload r = (''/v1/chat/completions'', Chat c)
           \<and> Chat_UseContext c = False
           \<and> Chat_IncludeSources c = False
           \<and> Chat_ContextFilter c = None
           \<and> getField (upstreamJSON r) ''use_context'' = Some (JBool False)
           \<and> getField (upstreamJSON r) ''include_sources'' = Some (JBool False)
           \<and> \<not> hasKey (upstreamJSON r) ''context_filter''"
  using assms
  by (simp add: chatPayload_basic upstreamJSON_def marshal_def marshalChatRequest_def
      hasKey_getField getField_simps)

theorem basic_no_context_witness:
  "Mode (Config (longChat ''basic'')) = ''basic''
   \<and> UseContext (Config (longChat ''basic'')) = True
   \<and> SelectedDocs (Config (longChat ''basic'')) = [''d1'', ''d2'']
   \<and> getField (upstreamJSON (longChat ''basic'')) ''use_context'' = Some (JBool False)
   \<and> getField (upstreamJSON (longChat ''basic'')) ''include_sources'' = Some (JBool False)
   \<and> \<not> hasKey (upstreamJSON (longChat ''basic'')) ''context_filter''"
proof -
  have m: "Mode (Config (longChat ''basic'')) = ''basic''"
    by (simp add: longChat_def)
  from basic_no_context [OF m] show ?thesis
    by (auto simp: longChat_def)
qed

section \<open>The stream key\<close>

lemma stream_search:
  "Mode (Config r) = ''search'' \<Longrightarrow> getField (upstreamJSON r) ''stream'' = None"
  by (simp add: chatPayload_search upstreamJSON_def marshal_def marshalChunksRequest_def
      getField_simps split: option.split)

lemma stream_summarize:
  "Mode (Config r) = ''summarize'' \<Longrightarrow> getField (upstreamJSON r) ''stream'' = None"
  by (simp add: chatPayload_summarize upstreamJSON_def marshal_def marshalCompletionRequest_def
      getField_simps split: option.split)

lemma stream_basic:
  "Mode (Config r) = ''basic'' \<Longrightarrow> getField (upstreamJSON r) ''stream'' = Some (JBool False)"
  by (simp add: chatPayload_basic upstreamJSON_def marshal_def marshalChatRequest_def
      getField_simps split: option.split)

lemma stream_default:
  "Mode (Config r) \<noteq> ''search'' \<Longrightarrow> Mode (Config r) \<noteq> ''basic'' \<Longrightarrow>
   Mode (Config r) \<noteq> ''summarize'' \<Longrightarrow>
   getField (upstreamJSON r) ''stream'' = Some (JBool False)"
  by (simp add: chatPayload_default upstreamJSON_def marshal_def marshalChatRequest_def
      getField_simps split: option.split)

text \<open>
  Claim C2, as the code has it. Only \<^verbatim>\<open>ChatRequest\<close> declares a \<^verbatim>\<open>Stream\<close> field.
  The payload of the modes \<^verbatim>\<open>basic\<close> and \<^verbatim>\<open>rag\<close> (and of every unrecognised mode)
  has the key \<^verbatim>\<open>stream\<close> with the value false; the payload of the modes
  \<^verbatim>\<open>search\<close> and \<^verbatim>\<open>summarize\<close> has no \<^verbatim>\<open>stream\<close> key. So no payload asks for
  streaming, and two of the four modes do not mention it.
\<close>

theorem stream_by_mode:
  "getField (upstreamJSON r) ''stream'' =
     (if Mode (Config r) = ''search'' \<or> Mode (Config r) = ''summarize'' then None
      else Some (JBool False))"
  using stream_search [of r] stream_summarize [of r] stream_basic [of r] stream_default [of r]
  by (cases "Mode (Config r) = ''basic''") auto

text \<open>The claim as written asks for a \<^verbatim>\<open>stream\<close> key in search mode too; there is none.\<close>

theorem stream_search_counterexample:
  "Mode (Config searchRequest) = ''search'' \<and> \<not> hasKey (upstreamJSON searchRequest) ''stream''"
  by (simp add: searchRequest_def chatPayload_def upstreamJSON_def marshal_def
      marshalChunksRequest_def selectedFilter_def hasKey_getField getField_simps)

theorem stream_by_mode_witness:
  "getField (upstreamJSON (longChat ''search'')) ''stream'' = None
   \<and> getField (upstreamJSON (longChat ''summarize'')) ''stream'' = None
   \<and> getField (upstreamJSON (longChat ''basic'')) ''stream'' = Some (JBool False)
   \<and> getField (upstreamJSON (longChat ''rag'')) ''stream'' = Some (JBool False)"
  using stream_by_mode [of "longChat ''search''"] stream_by_mode [of "longChat ''summarize''"]
    stream_by_mode [of "longChat ''basic''"] stream_by_mode [of "longChat ''rag''"]
  by (simp add: longChat_def)

section \<open>Rag mode and the default branch\<close>

text \<open>
  Claim C3. For every chat request whose mode is none of \<^verbatim>\<open>search\<close>, \<^verbatim>\<open>basic\<close>
  and \<^verbatim>\<open>summarize\<close> (so \<^verbatim>\<open>rag\<close>, an unrecognised string, or the empty string of an
  absent mode), the payload goes to the chat completion endpoint; its messages are the
  system turn when the system prompt is not empty, then the whole history as it came,
  then the user turn with the message; \<^verbatim>\<open>use_context\<close> is the configuration's value,
  \<^verbatim>\<open>include_sources\<close> is true, and the context filter, holding the selected
  documents, is there exactly when \<^verbatim>\<open>use_context\<close> is true and some document is
  selected.
\<close>

theorem rag_payload:
  assumes "Mode (Config r) \<notin> {''search'', ''basic'', ''summarize''}"
  shows "\<exists>c. chatPayload r = (''/v1/chat/completions'', Chat c)
           \<and> Chat_Messages c =
               (if SystemPrompt r \<noteq> [] then [\<lparr>Role = ''system'', Content = SystemPrompt r\<rparr>]
                else [])
               @ History r @ [\<lparr>Role = ''user'', Content = Req_Message r\<rparr>]
           \<and> getField (upstreamJSON r) ''messages''
               = Some (JArray (map marshalMessage (Chat_Messages c)))
           \<and> Chat_UseContext c = UseContext (Config r)
           \<and> Chat_IncludeSources c = True
           \<and> Chat_ContextFilter c =
                (if UseContext (Config r) \<and> SelectedDocs (Config r) \<noteq> []
                 then Some (ContextFilter (SelectedDocs (Config r))) else None)
           \<and> getField (upstreamJSON r) ''use_context'' = Some (JBool (UseContext (Config r)))
           \<and> getField (upstreamJSON r) ''include_sources'' = Some (JBool True)
           \<and> (hasKey (upstreamJSON r) ''context_filter''
                \<longleftrightarrow> UseContext (Config r) \<and> SelectedDocs (Config r) \<noteq> [])"
  using assms
  by (simp add: chatPayload_default upstreamJSON_def marshal_def marshalChatRequest_def
      hasKey_getField getField_simps systemTurn_def userTurn_def)

theorem rag_payload_witness:
  "Mode (Config (longChat ''rag'')) \<notin> {''search'', ''basic'', ''summarize''}
   \<and> Mode (Config (longChat [])) \<notin> {''search'', ''basic'', ''summarize''}
   \<and> getField (upstreamJSON (longChat ''rag'')) ''use_context'' = Some (JBool True)
   \<and> getField (upstreamJSON (longChat ''rag'')) ''include_sources'' = Some (JBool True)
   \<and> hasKey (upstreamJSON (longChat ''rag'')) ''context_filter''
   \<and> hasKey (upstreamJSON (longChat [])) ''context_filter''
   \<and> getField (upstreamJSON (longChat ''rag'')) ''messages'' =
       Some (JArray (map marshalMessage
         ([turn ''system'' ''be brief''] @ History (longChat ''rag'')
            @ [turn ''user'' ''and then?''])))"
proof -
  have m: "Mode (Config (longChat ''rag'')) \<notin> {''search'', ''basic'', ''summarize''}"
    by (simp add: longChat_def)
  have e: "Mode (Config (longChat [])) \<notin> {''search'', ''basic'', ''summarize''}"
    by (simp add: longChat_def)
  from rag_payload [OF m] rag_payload [OF e] m e show ?thesis
    by (auto simp: longChat_def turn_def)
qed

section \<open>The history kept in basic mode\<close>

text \<open>
  Claim C4. In \<^verbatim>\<open>basic\<close> mode the history splits into a dropped front and a kept
  rest, and the messages of the payload are the optional system turn, the kept rest in
  its order, and the user turn. When the history has more than four turns the kept rest
  has exactly four, so it is the last four turns; otherwise nothing is dropped.
\<close>

theorem basic_history:
  assumes "Mode (Config r) = ''basic''"
  shows "\<exists>c dropped kept.
           chatPayload r = (''/v1/chat/completions'', Chat c)
         \<and> History r = dropped @ kept
         \<and> Chat_Messages c =
             (if SystemPrompt r \<noteq> [] then [\<lparr>Role = ''system'', Content = SystemPrompt r\<rparr>]
              else [])
             @ kept @ [\<lparr>Role = ''user'', Content = Req_Message r\<rparr>]
         \<and> (if length (History r) > 4 then length kept = 4 else dropped = [])"
proof -
  let ?h = "History r"
  have split_h: "?h = take (length ?h - 4) ?h @ basicHistory ?h" if "length ?h > 4"
    using that by (simp add: basicHistory_def)
  show ?thesis
  proof (cases "length ?h > 4")
    case True
    have "length (basicHistory ?h) = 4"
      using True by (simp add: basicHistory_def)
    with True split_h assms show ?thesis
      by (simp add: chatPayload_basic systemTurn_def userTurn_def) metis
  next
    case False
    then have "basicHistory ?h = ?h"
      by (simp add: basicHistory_def)
    with False assms show ?thesis
      by (simp add: chatPayload_basic systemTurn_def userTurn_def)
  qed
qed

theorem basic_history_witness:
  "Mode (Config (longChat ''basic'')) = ''basic''
   \<and> length (History (longChat ''basic'')) = 6
   \<and> (\<exists>c. chatPayload (longChat ''basic'') = (''/v1/chat/completions'', Chat c)
          \<and> Chat_Messages c =
              [turn ''system'' ''be brief'',
               turn ''user'' ''q2'', turn ''assistant'' ''a2'',
               turn ''user'' ''q3'', turn ''assistant'' ''a3'',
               turn ''user'' ''and then?''])"
proof -
  let ?r = "longChat ''basic''"
  have m: "Mode (Config ?r) = ''basic''" and len: "length (History ?r) = 6"
    by (simp_all add: longChat_def)
  from basic_history [OF m] obtain c dropped kept where
    p: "chatPayload ?r = (''/v1/chat/completions'', Chat c)"
    and h: "History ?r = dropped @ kept"
    and msgs: "Chat_Messages c =
       (if SystemPrompt ?r \<noteq> [] then [\<lparr>Role = ''system'', Content = SystemPrompt ?r\<rparr>] else [])
       @ kept @ [\<lparr>Role = ''user'', Content = Req_Message ?r\<rparr>]"
    and k: "length kept = 4"
    using len by auto
  from h have "kept = drop (length dropped) (History ?r)"
    by simp
  moreover from h k len have "length dropped = 2"
    by simp
  ultimately have "kept = drop 2 (History ?r)"
    by simp
  then have "kept = [turn ''user'' ''q2'', turn ''assistant'' ''a2'',
                     turn ''user'' ''q3'', turn ''assistant'' ''a3'']"
    by (simp add: longChat_def)
  with msgs have "Chat_Messages c =
      [turn ''system'' ''be brief'',
       turn ''user'' ''q2'', turn ''assistant'' ''a2'',
       turn ''user'' ''q3'', turn ''assistant'' ''a3'',
       turn ''user'' ''and then?'']"
    by (simp add: longChat_def turn_def)
  with p m len show ?thesis
    by blast
qed

section \<open>Search mode reads the message and the selected documents only\<close>

text \<open>
  Claim C9. Two chat requests in \<^verbatim>\<open>search\<close> mode with the same message and the
  same selected documents get the same endpoint and the same payload, whatever their
  histories and system prompts (and the rest of their configurations) are. The payload
  is the chunks request: the text is the message, the limit is 10, one chunk before and
  after, and the context filter with the selected documents when there is one.
\<close>

theorem search_ignores_history:
  assumes "Mode (Config r1) = ''search''" and "Mode (Config r2) = ''search''"
    and "Req_Message r1 = Req_Message r2"
    and "SelectedDocs (Config r1) = SelectedDocs (Config r2)"
  shows "chatPayload r1 = chatPayload r2
       \<and> fst (chatPayload r1) = ''/v1/chunks''
       \<and> upstreamJSON r1 = upstreamJSON r2
       \<and> upstreamJSON r1 =
           JObject ([(''text'', JString (Req_Message r1))]
             @ (if SelectedDocs (Config r1) \<noteq> []
                then [(''context_filter'',
                       JObject [(''docs_ids'', JArray (map JString (SelectedDocs (Config r1))))])]
                else [])
             @ [(''limit'', JInt 10), (''prev_next_chunks'', JInt 1)])"
  using assms
  by (simp add: chatPayload_search upstreamJSON_def marshal_def marshalChunksRequest_def
      selectedFilter_def optContextFilter_def marshalContextFilter_def omitempty_def)

theorem search_ignores_history_witness:
  "Mode (Config searchRequest) = ''search''
   \<and> Mode (Config (searchRequest\<lparr>SystemPrompt := ''be rude'',
                                  History := [turn ''user'' ''hello'']\<rparr>)) = ''search''
   \<and> upstreamJSON (searchRequest\<lparr>SystemPrompt := ''be rude'',
                                  History := [turn ''user'' ''hello'']\<rparr>)
       = upstreamJSON searchRequest
   \<and> upstreamJSON searchRequest =
       JObject [(''text'', JString ''invoice total''),
                (''context_filter'', JObject [(''docs_ids'', JArray [JString ''d1''])]),
                (''limit'', JInt 10), (''prev_next_chunks'', JInt 1)]"
proof -
  let ?r2 = "searchRequest\<lparr>SystemPrompt := ''be rude'', History := [turn ''user'' ''hello'']\<rparr>"
  have a: "Mode (Config searchRequest) = ''search''" and b: "Mode (Config ?r2) = ''search''"
    and c: "Req_Message searchRequest = Req_Message ?r2"
    and d: "SelectedDocs (Config searchRequest) = SelectedDocs (Config ?r2)"
    by (simp_all add: searchRequest_def)
  note t = search_ignores_history [OF a b c d]
  from t have same: "upstreamJSON ?r2 = upstreamJSON searchRequest"
    by simp
  have "Req_Message searchRequest = ''invoice total''"
    and "SelectedDocs (Config searchRequest) = [''d1'']"
    by (simp_all add: searchRequest_def)
  with t [THEN conjunct2, THEN conjunct2, THEN conjunct2] have "upstreamJSON searchRequest =
       JObject [(''text'', JString ''invoice total''),
                (''context_filter'', JObject [(''docs_ids'', JArray [JString ''d1''])]),
                (''limit'', JInt 10), (''prev_next_chunks'', JInt 1)]"
    by simp
  with a b same show ?thesis
    by blast
qed

section \<open>The deduplicated view\<close>

lemma deduplicate_Nil: "deduplicate [] = Map.empty"
  by (simp add: deduplicate_def)

lemma deduplicate_snoc: "deduplicate (fs @ [f]) = dedupStep (deduplicate fs) f"
  by (simp add: deduplicate_def)

lemma deduplicate_None: "deduplicate fs k = None \<longleftrightarrow> (\<forall>f\<in>set fs. fileName f \<noteq> k)"
proof (induction fs rule: rev_induct)
  case Nil
  show ?case by (simp add: deduplicate_Nil)
next
  case (snoc f fs)
  then show ?case
    by (auto simp: deduplicate_snoc dedupStep_def split: option.splits)
qed

text \<open>The record in a slot comes from the list, has the slot's key, and no record of that
  key in the list has a greater id.\<close>

lemma deduplicate_Some:
  "deduplicate fs k = Some r \<Longrightarrow>
     r \<in> set fs \<and> fileName r = k \<and> (\<forall>f\<in>set fs. fileName f = k \<longrightarrow> DocID f \<le> DocID r)"
proof (induction fs arbitrary: r k rule: rev_induct)
  case Nil
  then show ?case by (simp add: deduplicate_Nil)
next
  case (snoc f fs)
  show ?case
  proof (cases "deduplicate fs (fileName f)")
    case None
    then have new: "deduplicate (fs @ [f]) = (deduplicate fs)(fileName f \<mapsto> f)"
      by (simp add: deduplicate_snoc dedupStep_def)
    from None have "\<forall>g\<in>set fs. fileName g \<noteq> fileName f"
      by (simp add: deduplicate_None)
    with snoc new show ?thesis
      by (auto split: if_splits)
  next
    case (Some existing)
    note ex = snoc.IH [OF Some]
    show ?thesis
    proof (cases "DocID f > DocID existing")
      case True
      with Some have "deduplicate (fs @ [f]) = (deduplicate fs)(fileName f \<mapsto> f)"
        by (simp add: deduplicate_snoc dedupStep_def)
      with snoc True ex show ?thesis
        by (fastforce split: if_splits)
    next
      case False
      with Some have same: "deduplicate (fs @ [f]) = deduplicate fs"
        by (simp add: deduplicate_snoc dedupStep_def)
      with snoc.prems have r: "deduplicate fs k = Some r" by simp
      note snoc.IH [OF r]
      moreover have "DocID f \<le> DocID r" if "fileName f = k"
        using that r Some False by simp
      ultimately show ?thesis by auto
    qed
  qed
qed

lemma deduplicate_DocID_cong:
  assumes "set fs' = set fs"
  shows "map_option DocID (deduplicate fs' k) = map_option DocID (deduplicate fs k)"
proof (cases "deduplicate fs k")
  case None
  with assms show ?thesis
    using deduplicate_None [of fs k] deduplicate_None [of fs' k] by simp
next
  case (Some r)
  then have "deduplicate fs' k \<noteq> None"
    using assms deduplicate_None [of fs k] deduplicate_None [of fs' k] by simp
  then obtain r' where r': "deduplicate fs' k = Some r'" by auto
  from deduplicate_Some [OF Some] deduplicate_Some [OF r'] assms
  have "DocID r = DocID r'"
    by (auto intro: antisym)
  with Some r' show ?thesis by simp
qed

text \<open>The record in a slot is the first of the list's records of that key that carry the
  greatest id: every record of the key before it has a smaller id, and none after it has
  a greater one.\<close>

lemma deduplicate_first_greatest:
  "deduplicate fs k = Some r \<Longrightarrow>
     \<exists>pre post. fs = pre @ r # post \<and> fileName r = k
       \<and> (\<forall>f\<in>set pre. fileName f = k \<longrightarrow> DocID f < DocID r)
       \<and> (\<forall>f\<in>set post. fileName f = k \<longrightarrow> DocID f \<le> DocID r)"
proof (induction fs arbitrary: r k rule: rev_induct)
  case Nil
  then show ?case by (simp add: deduplicate_Nil)
next
  case (snoc f fs)
  have later: ?case
    if old: "deduplicate fs k = Some r" and le: "fileName f = k \<Longrightarrow> DocID f \<le> DocID r"
  proof -
    from snoc.IH [OF old] obtain pre post where
      "fs = pre @ r # post" "fileName r = k"
      "\<forall>g\<in>set pre. fileName g = k \<longrightarrow> DocID g < DocID r"
      "\<forall>g\<in>set post. fileName g = k \<longrightarrow> DocID g \<le> DocID r"
      by blast
    with le have "fs @ [f] = pre @ r # (post @ [f]) \<and> fileName r = k
       \<and> (\<forall>g\<in>set pre. fileName g = k \<longrightarrow> DocID g < DocID r)
       \<and> (\<forall>g\<in>set (post @ [f]). fileName g = k \<longrightarrow> DocID g \<le> DocID r)"
      by simp
    then show ?thesis by blast
  qed
  have newest: ?case
    if "r = f" "k = fileName f" "\<forall>g\<in>set fs. fileName g = k \<longrightarrow> DocID g < DocID f"
  proof -
    from that have "fs @ [f] = fs @ r # [] \<and> fileName r = k
       \<and> (\<forall>g\<in>set fs. fileName g = k \<longrightarrow> DocID g < DocID r)
       \<and> (\<forall>g\<in>set []. fileName g = k \<longrightarrow> DocID g \<le> DocID r)"
      by simp
    then show ?thesis by blast
  qed
  show ?case
  proof (cases "deduplicate fs (fileName f)")
    case None
    then have new: "deduplicate (fs @ [f]) = (deduplicate fs)(fileName f \<mapsto> f)"
      by (simp add: deduplicate_snoc dedupStep_def)
    from None have none: "\<forall>g\<in>set fs. fileName g \<noteq> fileName f"
      by (simp add: deduplicate_None)
    show ?thesis
    proof (cases "k = fileName f")
      case True
      with snoc.prems new have "r = f" by simp
      with True none show ?thesis by (intro newest) auto
    next
      case False
      with snoc.prems new have "deduplicate fs k = Some r" by simp
      with False show ?thesis by (intro later) auto
    qed
  next
    case (Some existing)
    show ?thesis
    proof (cases "DocID f > DocID existing")
      case True
      with Some have new: "deduplicate (fs @ [f]) = (deduplicate fs)(fileName f \<mapsto> f)"
        by (simp add: deduplicate_snoc dedupStep_def)
      show ?thesis
      proof (cases "k = fileName f")
        case k: True
        with snoc.prems new have "r = f" by simp
        moreover have "\<forall>g\<in>set fs. fileName g = k \<longrightarrow> DocID g < DocID f"
          using deduplicate_Some [OF Some] True k by (auto intro: le_less_trans)
        ultimately show ?thesis using k by (intro newest)
      next
        case False
        with snoc.prems new have "deduplicate fs k = Some r" by simp
        with False show ?thesis by (intro later) auto
      qed
    next
      case False
      with Some have same: "deduplicate (fs @ [f]) = deduplicate fs"
        by (simp add: deduplicate_snoc dedupStep_def)
      with snoc.prems have r: "deduplicate fs k = Some r" by simp
      have "DocID f \<le> DocID r" if "fileName f = k"
        using that r Some False by simp
      with r show ?thesis by (intro later)
    qed
  qed
qed

lemma deduplicate_max_cong:
  assumes "set fs' = set fs"
    and inj: "\<forall>f\<in>set fs. \<forall>g\<in>set fs.
        fileName f = fileName g \<and> DocID f = DocID g
        \<and> (\<forall>h\<in>set fs. fileName h = fileName f \<longrightarrow> DocID h \<le> DocID f) \<longrightarrow> f = g"
  shows "deduplicate fs' = deduplicate fs"
proof
  fix k
  show "deduplicate fs' k = deduplicate fs k"
  proof (cases "deduplicate fs k")
    case None
    with assms(1) show ?thesis
      using deduplicate_None [of fs k] deduplicate_None [of fs' k] by simp
  next
    case (Some r)
    then have "deduplicate fs' k \<noteq> None"
      using assms(1) deduplicate_None [of fs k] deduplicate_None [of fs' k] by simp
    then obtain r' where r': "deduplicate fs' k = Some r'" by auto
    note a = deduplicate_Some [OF Some] and b = deduplicate_Some [OF r']
    from a b assms(1)
    have m: "r \<in> set fs" "r' \<in> set fs" "fileName r = fileName r'" "DocID r = DocID r'"
      by (auto intro: antisym)
    from a have "\<forall>h\<in>set fs. fileName h = fileName r \<longrightarrow> DocID h \<le> DocID r"
      by simp
    with inj m have "r = r'" by blast
    with Some r' show ?thesis by simp
  qed
qed

text \<open>
  Claim C5, as the code has it. For every upstream file list:
  \<^item> a record is keyed by its metadata \<^verbatim>\<open>file_name\<close> when that is present as a string,
    and by \<^verbatim>\<open>"Unknown"\<close> when the metadata is missing, the entry is missing, or the
    entry is not a string (so all such records share one slot);
  \<^item> every record's key has a slot, and the slot holds a record of the list with that
    key whose \<^verbatim>\<open>doc_id\<close> is greatest among the list's records of that key;
  \<^item> among the records of the key that carry this greatest \<^verbatim>\<open>doc_id\<close>, the slot holds
    the one that comes first in the list: every record of the key before it has a
    smaller \<^verbatim>\<open>doc_id\<close>, and none after it has a greater one;
  \<^item> a record whose \<^verbatim>\<open>doc_id\<close> is greater than that of every other record of its key is
    the one its slot holds;
  \<^item> the \<^verbatim>\<open>doc_id\<close> kept in each slot is the same for every list with the same
    records, whatever their order;
  \<^item> the record kept is the same too, provided no two different records of the list
    share a key and the greatest \<^verbatim>\<open>doc_id\<close> of that key.
\<close>

theorem deduplicated_view:
  "(\<forall>f md n. DocMetadata f = Some md \<and> md ''file_name'' = Some (JString n) \<longrightarrow> fileName f = n)
   \<and> (\<forall>f. DocMetadata f = None \<longrightarrow> fileName f = ''Unknown'')
   \<and> (\<forall>f md. DocMetadata f = Some md \<and> md ''file_name'' = None \<longrightarrow> fileName f = ''Unknown'')
   \<and> (\<forall>f md v. DocMetadata f = Some md \<and> md ''file_name'' = Some v \<and> (\<forall>n. v \<noteq> JString n)
         \<longrightarrow> fileName f = ''Unknown'')
   \<and> (\<forall>f\<in>set fs. \<exists>r. deduplicate fs (fileName f) = Some r)
   \<and> (\<forall>k r. deduplicate fs k = Some r \<longrightarrow>
         r \<in> set fs \<and> fileName r = k
         \<and> (\<forall>f\<in>set fs. fileName f = k \<longrightarrow> DocID f \<le> DocID r))
   \<and> (\<forall>k r. deduplicate fs k = Some r \<longrightarrow>
         (\<exists>pre post. fs = pre @ r # post
            \<and> (\<forall>f\<in>set pre. fileName f = k \<longrightarrow> DocID f < DocID r)
            \<and> (\<forall>f\<in>set post. fileName f = k \<longrightarrow> DocID f \<le> DocID r)))
   \<and> (\<forall>r\<in>set fs. (\<forall>f\<in>set fs. fileName f = fileName r \<and> f \<noteq> r \<longrightarrow> DocID f < DocID r)
         \<longrightarrow> deduplicate fs (fileName r) = Some r)
   \<and> (\<forall>fs' k. set fs' = set fs \<longrightarrow>
         map_option DocID (deduplicate fs' k) = map_option DocID (deduplicate fs k))
   \<and> (\<forall>fs'. set fs' = set fs
         \<and> (\<forall>f\<in>set fs. \<forall>g\<in>set fs.
               fileName f = fileName g \<and> DocID f = DocID g
               \<and> (\<forall>h\<in>set fs. fileName h = fileName f \<longrightarrow> DocID h \<le> DocID f) \<longrightarrow> f = g)
         \<longrightarrow> deduplicate fs' = deduplicate fs)"
proof -
  have k1: "\<forall>f md n. DocMetadata f = Some md \<and> md ''file_name'' = Some (JString n)
              \<longrightarrow> fileName f = n"
    by (simp add: fileName_def)
  have k2: "\<forall>f. DocMetadata f = None \<longrightarrow> fileName f = ''Unknown''"
    by (simp add: fileName_def)
  have k3: "\<forall>f md. DocMetadata f = Some md \<and> md ''file_name'' = None
              \<longrightarrow> fileName f = ''Unknown''"
    by (simp add: fileName_def)
  have k4: "\<forall>f md v. DocMetadata f = Some md \<and> md ''file_name'' = Some v
              \<and> (\<forall>n. v \<noteq> JString n) \<longrightarrow> fileName f = ''Unknown''"
  proof (intro allI impI)
    fix f :: FileInfo and md v
    assume a: "DocMetadata f = Some md \<and> md ''file_name'' = Some v \<and> (\<forall>n. v \<noteq> JString n)"
    then show "fileName f = ''Unknown''"
      by (cases v) (simp_all add: fileName_def)
  qed
  have slot: "\<forall>f\<in>set fs. \<exists>r. deduplicate fs (fileName f) = Some r"
  proof
    fix f assume "f \<in> set fs"
    then have "deduplicate fs (fileName f) \<noteq> None"
      unfolding deduplicate_None by blast
    then show "\<exists>r. deduplicate fs (fileName f) = Some r"
      by blast
  qed
  have greatest: "\<forall>k r. deduplicate fs k = Some r \<longrightarrow>
         r \<in> set fs \<and> fileName r = k
         \<and> (\<forall>f\<in>set fs. fileName f = k \<longrightarrow> DocID f \<le> DocID r)"
    using deduplicate_Some [of fs] by blast
  have first: "\<forall>k r. deduplicate fs k = Some r \<longrightarrow>
         (\<exists>pre post. fs = pre @ r # post
            \<and> (\<forall>f\<in>set pre. fileName f = k \<longrightarrow> DocID f < DocID r)
            \<and> (\<forall>f\<in>set post. fileName f = k \<longrightarrow> DocID f \<le> DocID r))"
  proof (intro allI impI)
    fix k r assume "deduplicate fs k = Some r"
    from deduplicate_first_greatest [OF this]
    show "\<exists>pre post. fs = pre @ r # post
            \<and> (\<forall>f\<in>set pre. fileName f = k \<longrightarrow> DocID f < DocID r)
            \<and> (\<forall>f\<in>set post. fileName f = k \<longrightarrow> DocID f \<le> DocID r)"
      by blast
  qed
  have strict: "\<forall>r\<in>set fs.
         (\<forall>f\<in>set fs. fileName f = fileName r \<and> f \<noteq> r \<longrightarrow> DocID f < DocID r)
         \<longrightarrow> deduplicate fs (fileName r) = Some r"
  proof (intro ballI impI)
    fix r
    assume r: "r \<in> set fs"
      and top: "\<forall>f\<in>set fs. fileName f = fileName r \<and> f \<noteq> r \<longrightarrow> DocID f < DocID r"
    from slot r obtain r' where r': "deduplicate fs (fileName r) = Some r'"
      by blast
    with greatest have "r' \<in> set fs" "fileName r' = fileName r" "DocID r \<le> DocID r'"
      using r by blast+
    with top have "r' = r"
      by (metis leD)
    with r' show "deduplicate fs (fileName r) = Some r"
      by simp
  qed
  have ids: "\<forall>fs' k. set fs' = set fs \<longrightarrow>
         map_option DocID (deduplicate fs' k) = map_option DocID (deduplicate fs k)"
    using deduplicate_DocID_cong [of _ fs] by blast
  have recs: "\<forall>fs'. set fs' = set fs
         \<and> (\<forall>f\<in>set fs. \<forall>g\<in>set fs.
               fileName f = fileName g \<and> DocID f = DocID g
               \<and> (\<forall>h\<in>set fs. fileName h = fileName f \<longrightarrow> DocID h \<le> DocID f) \<longrightarrow> f = g)
         \<longrightarrow> deduplicate fs' = deduplicate fs"
    using deduplicate_max_cong [of _ fs] by blast
  from k1 k2 k3 k4 slot greatest first strict ids recs show ?thesis
    by (intro conjI)
qed

text \<open>Two records of one file name with the same id and different page labels: the view
  keeps whichever the list has first, so it depends on the order.\<close>

lemma pages_differ: "pageOne \<noteq> pageTwo"
proof
  assume "pageOne = pageTwo"
  then have "the (DocMetadata pageOne) ''page_label'' = the (DocMetadata pageTwo) ''page_label''"
    by simp
  then show False by (simp add: pageOne_def pageTwo_def)
qed

theorem deduplicate_tie_counterexample:
  "deduplicate [pageOne, pageTwo] ''report.pdf'' = Some pageOne
   \<and> deduplicate [pageTwo, pageOne] ''report.pdf'' = Some pageTwo
   \<and> pageOne \<noteq> pageTwo"
proof -
  have "deduplicate [pageOne, pageTwo] ''report.pdf'' = Some pageOne"
    by (simp add: deduplicate_def dedupStep_def fileName_def pageOne_def pageTwo_def)
  moreover have "deduplicate [pageTwo, pageOne] ''report.pdf'' = Some pageTwo"
    by (simp add: deduplicate_def dedupStep_def fileName_def pageOne_def pageTwo_def)
  ultimately show ?thesis
    using pages_differ by simp
qed

text \<open>The theorem at two lists. In the first no two records tie: the newer record of
  \<^verbatim>\<open>notes.txt\<close> and the record without metadata are kept, in any order. In the second
  the two pages tie at the greatest id, a record of a lesser id stands before them and
  a record whose \<^verbatim>\<open>file_name\<close> is a number after them: the first of the two pages is
  kept, and the last record is keyed \<^verbatim>\<open>"Unknown"\<close>.\<close>

theorem deduplicated_view_witness:
  "set [newer, nameless, older] = set [older, newer, nameless]
   \<and> deduplicate [newer, nameless, older] = deduplicate [older, newer, nameless]
   \<and> deduplicate [older, newer, nameless] ''notes.txt'' = Some newer
   \<and> deduplicate [older, newer, nameless] ''Unknown'' = Some nameless
   \<and> DocID older < DocID newer
   \<and> DocID draft < DocID pageOne
   \<and> DocID pageOne = DocID pageTwo
   \<and> deduplicate [draft, pageOne, pageTwo, numbered] ''report.pdf'' = Some pageOne
   \<and> fileName numbered = ''Unknown''"
proof -
  let ?fs = "[older, newer, nameless]"
  note v = deduplicated_view [of ?fs]
  note slot = v [THEN conjunct2, THEN conjunct2, THEN conjunct2, THEN conjunct2,
      THEN conjunct1, rule_format]
  note greatest = v [THEN conjunct2, THEN conjunct2, THEN conjunct2, THEN conjunct2,
      THEN conjunct2, THEN conjunct1, rule_format]
  note recs = v [THEN conjunct2, THEN conjunct2, THEN conjunct2, THEN conjunct2,
      THEN conjunct2, THEN conjunct2, THEN conjunct2, THEN conjunct2, THEN conjunct2,
      rule_format]
  have s: "set [newer, nameless, older] = set ?fs"
    by auto
  have ids: "DocID older = ''a''" "DocID newer = ''b''" "DocID nameless = ''d3''"
    and keys: "fileName older = ''notes.txt''" "fileName newer = ''notes.txt''"
      "fileName nameless = ''Unknown''"
    by (simp_all add: older_def newer_def nameless_def named_def fileName_def)
  have inj: "\<forall>f\<in>set ?fs. \<forall>g\<in>set ?fs.
        fileName f = fileName g \<and> DocID f = DocID g
        \<and> (\<forall>h\<in>set ?fs. fileName h = fileName f \<longrightarrow> DocID h \<le> DocID f) \<longrightarrow> f = g"
    by (simp add: ids keys)
  have eq: "deduplicate [newer, nameless, older] = deduplicate ?fs"
    using s inj by (intro recs conjI)
  have "newer \<in> set ?fs"
    by simp
  from slot [OF this] obtain r where r: "deduplicate ?fs ''notes.txt'' = Some r"
    unfolding keys by blast
  from greatest [OF r] have "r \<in> set ?fs" and "fileName r = ''notes.txt''"
    and top: "\<forall>f\<in>set ?fs. fileName f = ''notes.txt'' \<longrightarrow> DocID f \<le> DocID r"
    by blast+
  from top have "DocID newer \<le> DocID r"
    by (simp add: keys)
  with \<open>r \<in> set ?fs\<close> \<open>fileName r = ''notes.txt''\<close> have "r = newer"
    by (auto simp: ids keys)
  with r have kept_newer: "deduplicate ?fs ''notes.txt'' = Some newer"
    by simp
  have "nameless \<in> set ?fs"
    by simp
  from slot [OF this] obtain u where u: "deduplicate ?fs ''Unknown'' = Some u"
    unfolding keys by blast
  from greatest [OF u] have "u \<in> set ?fs" and "fileName u = ''Unknown''"
    by blast+
  then have "u = nameless"
    by (auto simp: keys)
  with u have unk: "deduplicate ?fs ''Unknown'' = Some nameless"
    by simp
  have lt: "DocID older < DocID newer"
    by (simp add: ids)

  let ?gs = "[draft, pageOne, pageTwo, numbered]"
  note w = deduplicated_view [of ?gs]
  note key4 = w [THEN conjunct2, THEN conjunct2, THEN conjunct2, THEN conjunct1, rule_format]
  note slot' = w [THEN conjunct2, THEN conjunct2, THEN conjunct2, THEN conjunct2,
      THEN conjunct1, rule_format]
  note greatest' = w [THEN conjunct2, THEN conjunct2, THEN conjunct2, THEN conjunct2,
      THEN conjunct2, THEN conjunct1, rule_format]
  note first' = w [THEN conjunct2, THEN conjunct2, THEN conjunct2, THEN conjunct2,
      THEN conjunct2, THEN conjunct2, THEN conjunct1, rule_format]
  have ids': "DocID draft = ''c0ffed''" "DocID pageOne = ''c0ffee''"
      "DocID pageTwo = ''c0ffee''"
    and keys': "fileName draft = ''report.pdf''" "fileName pageOne = ''report.pdf''"
      "fileName pageTwo = ''report.pdf''"
    by (simp_all add: draft_def pageOne_def pageTwo_def named_def fileName_def)
  have "DocMetadata numbered = Some [''file_name'' \<mapsto> JFloat 7]
      \<and> [''file_name'' \<mapsto> JFloat 7] ''file_name'' = Some (JFloat 7)
      \<and> (\<forall>n. JFloat 7 \<noteq> JString n)"
    by (simp add: numbered_def)
  from key4 [OF this] have num: "fileName numbered = ''Unknown''" .
  have "pageOne \<in> set ?gs"
    by simp
  from slot' [OF this] obtain p where p: "deduplicate ?gs ''report.pdf'' = Some p"
    unfolding keys' by blast
  from greatest' [OF p] have "p \<in> set ?gs" "fileName p = ''report.pdf''"
    and top': "\<forall>f\<in>set ?gs. fileName f = ''report.pdf'' \<longrightarrow> DocID f \<le> DocID p"
    by blast+
  from top' have "DocID pageOne \<le> DocID p"
    by (simp add: keys')
  with \<open>p \<in> set ?gs\<close> \<open>fileName p = ''report.pdf''\<close> have p12: "p = pageOne \<or> p = pageTwo"
    by (auto simp: ids' keys' num)
  from first' [OF p] obtain pre post where
    split: "?gs = pre @ p # post"
    and before: "\<forall>f\<in>set pre. fileName f = ''report.pdf'' \<longrightarrow> DocID f < DocID p"
    by blast
  have "p = pageOne"
  proof (rule ccontr)
    assume "p \<noteq> pageOne"
    with p12 have p2: "p = pageTwo" by simp
    have "draft \<noteq> pageTwo"
      using ids' by auto
    with split p2 pages_differ have "pageOne \<in> set pre"
      by (auto simp: Cons_eq_append_conv)
    with before have "DocID pageOne < DocID p"
      using keys' by blast
    with p2 show False
      by (simp add: ids')
  qed
  with p have tie: "deduplicate ?gs ''report.pdf'' = Some pageOne"
    by simp
  have "DocID draft < DocID pageOne" "DocID pageOne = DocID pageTwo"
    by (simp_all add: ids')
  with s eq kept_newer unk lt tie num show ?thesis
    by (intro conjI)
qed

section \<open>Delete-all: the response of each path\<close>

lemma deleteAll_empty:
  "Data listResp = [] \<Longrightarrow>
   deleteAllFilesHandler ''DELETE'' (GetResponse 200 (Inr listResp)) upstream =
     (\<lparr>StatusCode = 200, Body = Json (JObject
         [(''success'', JBool True),
          (''message'', JString ''No files to delete''),
          (''deleted_count'', JInt 0),
          (''failed_count'', JInt 0)])\<rparr>,
      [GET ''/v1/ingest/list''])"
  by (simp add: deleteAllFilesHandler_def)

lemma deleteAll_nonempty:
  assumes "Data listResp \<noteq> []"
  shows "fst (deleteAllFilesHandler ''DELETE'' (GetResponse 200 (Inr listResp)) upstream) =
     (let s = deleteLoop upstream 0
                \<lparr>deletedCount = 0, failedCount = 0, failedFiles = [],
                  calls = [GET ''/v1/ingest/list'']\<rparr> (Data listResp)
      in \<lparr>StatusCode = 200, Body = Json (JObject
            ([(''success'', JBool True),
              (''message'', JString (''Bulk delete completed: ''
                 @ itoa (deletedCount s) @ '' deleted, ''
                 @ itoa (failedCount s) @ '' failed'')),
              (''deleted_count'', JInt (deletedCount s)),
              (''failed_count'', JInt (failedCount s)),
              (''total_files'', JInt (int (length (Data listResp))))]
             @ (if length (failedFiles s) > 0
                then [(''failed_files'', JArray (map JString (failedFiles s)))]
                else [])))\<rparr>)"
  using assms by (simp add: deleteAllFilesHandler_def Let_def)

lemma deleteAll_fields:
  fixes listResp :: ListFilesResponse and upstream :: "nat \<Rightarrow> string \<Rightarrow> deleteOutcome"
  assumes "Data listResp \<noteq> []"
  defines "s \<equiv> deleteLoop upstream 0
                \<lparr>deletedCount = 0, failedCount = 0, failedFiles = [],
                  calls = [GET ''/v1/ingest/list'']\<rparr> (Data listResp)"
    and "resp \<equiv> fst (deleteAllFilesHandler ''DELETE'' (GetResponse 200 (Inr listResp)) upstream)"
  shows "StatusCode resp = 200"
    and "getField (jsonBody resp) ''success'' = Some (JBool True)"
    and "getField (jsonBody resp) ''deleted_count'' = Some (JInt (deletedCount s))"
    and "getField (jsonBody resp) ''failed_count'' = Some (JInt (failedCount s))"
    and "getField (jsonBody resp) ''total_files'' = Some (JInt (int (length (Data listResp))))"
    and "getField (jsonBody resp) ''failed_files'' =
           (if failedFiles s = [] then None else Some (JArray (map JString (failedFiles s))))"
  unfolding resp_def s_def deleteAll_nonempty [OF assms(1)]
  by (simp_all add: Let_def jsonBody_def getField_Cons getField_Nil getField_append)

section \<open>Delete-all: one iteration\<close>

text \<open>Every outcome other than the status 200 is one of the three kinds of failure.\<close>

lemma failure_kinds:
  "out \<noteq> Status 200 \<longleftrightarrow>
     out = RequestError \<or> out = NetworkError \<or> (\<exists>code. out = Status code \<and> code \<noteq> 200)"
  by (cases out) auto

lemma deleteStep_deleted:
  "deletedCount (deleteStep out s f) = deletedCount s + (if out = Status 200 then 1 else 0)"
  by (cases out) (simp_all add: deleteStep_def recordFailure_def issue_def)

lemma deleteStep_failed:
  "failedCount (deleteStep out s f) = failedCount s + (if out = Status 200 then 0 else 1)"
  by (cases out) (simp_all add: deleteStep_def recordFailure_def issue_def)

lemma deleteStep_failedFiles:
  "failedFiles (deleteStep out s f) =
     failedFiles s @ (if out = Status 200 then [] else [fileName f])"
  by (cases out) (simp_all add: deleteStep_def recordFailure_def issue_def)

section \<open>Delete-all: the loop\<close>

lemma deleteLoop_snoc:
  "deleteLoop upstream i s (fs @ [f]) =
     deleteStep (upstream (i + length fs) (DocID f)) (deleteLoop upstream i s fs) f"
  by (induction fs arbitrary: i s) simp_all

lemma filter_upt_snoc:
  "[j\<leftarrow>[0..<length (fs @ [f])]. P j ((fs @ [f]) ! j)] =
     [j\<leftarrow>[0..<length fs]. P j (fs ! j)] @ (if P (length fs) f then [length fs] else [])"
proof -
  have "[j\<leftarrow>[0..<length fs]. P j ((fs @ [f]) ! j)] = [j\<leftarrow>[0..<length fs]. P j (fs ! j)]"
    by (rule filter_cong) (simp_all add: nth_append)
  then show ?thesis by simp
qed

lemma deleteLoop_deleted:
  "deletedCount (deleteLoop upstream 0 s fs) =
     deletedCount s + int (length [j\<leftarrow>[0..<length fs]. upstream j (DocID (fs ! j)) = Status 200])"
proof (induction fs rule: rev_induct)
  case Nil
  show ?case by simp
next
  case (snoc f fs)
  show ?case
    using snoc filter_upt_snoc [of "\<lambda>j g. upstream j (DocID g) = Status 200" fs f]
    by (simp add: deleteLoop_snoc deleteStep_deleted)
qed

lemma deleteLoop_failed:
  "failedCount (deleteLoop upstream 0 s fs) =
     failedCount s + int (length [j\<leftarrow>[0..<length fs]. upstream j (DocID (fs ! j)) \<noteq> Status 200])"
proof (induction fs rule: rev_induct)
  case Nil
  show ?case by simp
next
  case (snoc f fs)
  show ?case
    using snoc filter_upt_snoc [of "\<lambda>j g. upstream j (DocID g) \<noteq> Status 200" fs f]
    by (simp add: deleteLoop_snoc deleteStep_failed)
qed

lemma deleteLoop_failedFiles:
  "failedFiles (deleteLoop upstream 0 s fs) =
     failedFiles s
     @ map (\<lambda>j. fileName (fs ! j))
         [j\<leftarrow>[0..<length fs]. upstream j (DocID (fs ! j)) \<noteq> Status 200]"
proof (induction fs rule: rev_induct)
  case Nil
  show ?case by simp
next
  case (snoc f fs)
  have names: "map (\<lambda>j. fileName ((fs @ [f]) ! j))
                 [j\<leftarrow>[0..<length fs]. upstream j (DocID (fs ! j)) \<noteq> Status 200] =
               map (\<lambda>j. fileName (fs ! j))
                 [j\<leftarrow>[0..<length fs]. upstream j (DocID (fs ! j)) \<noteq> Status 200]"
    by (rule map_cong) (simp_all add: nth_append)
  show ?case
    using snoc names filter_upt_snoc [of "\<lambda>j g. upstream j (DocID g) \<noteq> Status 200" fs f]
    by (simp add: deleteLoop_snoc deleteStep_failedFiles)
qed

lemma deleteStep_total:
  "deletedCount (deleteStep out s f) + failedCount (deleteStep out s f) =
     deletedCount s + failedCount s + 1"
  by (simp add: deleteStep_deleted deleteStep_failed)

lemma deleteStep_names:
  "failedCount s = int (length (failedFiles s)) \<Longrightarrow>
   failedCount (deleteStep out s f) = int (length (failedFiles (deleteStep out s f)))"
  by (simp add: deleteStep_failed deleteStep_failedFiles)

lemma deleteStep_nonneg:
  "0 \<le> deletedCount s \<Longrightarrow> 0 \<le> deletedCount (deleteStep out s f)"
  by (simp add: deleteStep_deleted)

text \<open>The invariant of the loop: each record adds one to exactly one counter, and the
  list of failed names is as long as the failure counter says.\<close>

lemma deleteLoop_invariant:
  "failedCount s = int (length (failedFiles s)) \<Longrightarrow> 0 \<le> deletedCount s \<Longrightarrow>
   deletedCount (deleteLoop upstream i s fs) + failedCount (deleteLoop upstream i s fs) =
     deletedCount s + failedCount s + int (length fs)
   \<and> failedCount (deleteLoop upstream i s fs) =
       int (length (failedFiles (deleteLoop upstream i s fs)))
   \<and> 0 \<le> deletedCount (deleteLoop upstream i s fs)"
proof (induction fs arbitrary: i s)
  case Nil
  then show ?case by simp
next
  case (Cons f fs)
  let ?next = "deleteStep (upstream i (DocID f)) s f"
  have "failedCount ?next = int (length (failedFiles ?next))"
    using Cons.prems(1) by (rule deleteStep_names)
  moreover have "0 \<le> deletedCount ?next"
    using Cons.prems(2) by (rule deleteStep_nonneg)
  ultimately show ?case
    using Cons.IH [where s = ?next and i = "Suc i"]
      deleteStep_total [of "upstream i (DocID f)" s f]
    by simp
qed

section \<open>Delete-all on an empty list\<close>

text \<open>
  Claim C6, as the code has it. When the list fetch answers 200 with an empty list,
  delete-all issues no delete call (the list fetch is its only upstream call) and
  answers 200 with \<^verbatim>\<open>success\<close> true, \<^verbatim>\<open>deleted_count\<close> 0 and \<^verbatim>\<open>failed_count\<close> 0.
  The response of this branch has no \<^verbatim>\<open>total_files\<close> key; only the response after a
  loop over a non-empty list has one.
\<close>

theorem delete_all_empty:
  assumes "Data listResp = []"
  shows "snd (deleteAllFilesHandler ''DELETE'' (GetResponse 200 (Inr listResp)) upstream)
           = [GET ''/v1/ingest/list'']
       \<and> StatusCode (fst (deleteAllFilesHandler ''DELETE'' (GetResponse 200 (Inr listResp)) upstream))
           = 200
       \<and> getField (jsonBody (fst (deleteAllFilesHandler ''DELETE''
            (GetResponse 200 (Inr listResp)) upstream))) ''success'' = Some (JBool True)
       \<and> getField (jsonBody (fst (deleteAllFilesHandler ''DELETE''
            (GetResponse 200 (Inr listResp)) upstream))) ''deleted_count'' = Some (JInt 0)
       \<and> getField (jsonBody (fst (deleteAllFilesHandler ''DELETE''
            (GetResponse 200 (Inr listResp)) upstream))) ''failed_count'' = Some (JInt 0)
       \<and> \<not> hasKey (jsonBody (fst (deleteAllFilesHandler ''DELETE''
            (GetResponse 200 (Inr listResp)) upstream))) ''total_files''"
  by (simp add: deleteAll_empty [OF assms] jsonBody_def hasKey_getField getField_Cons getField_Nil)

text \<open>The claim as written asks for \<^verbatim>\<open>total_files\<close> 0 in that response; the key is
  not there.\<close>

theorem delete_all_empty_counterexample:
  "Data noFiles = []
   \<and> getField (jsonBody (fst (deleteAllFilesHandler ''DELETE'' (GetResponse 200 (Inr noFiles))
        (\<lambda>i d. Status 200)))) ''total_files'' = None"
  by (simp add: deleteAllFilesHandler_def noFiles_def jsonBody_def getField_Cons getField_Nil)

theorem delete_all_empty_witness:
  "Data noFiles = []
   \<and> snd (deleteAllFilesHandler ''DELETE'' (GetResponse 200 (Inr noFiles)) (\<lambda>i d. Status 200))
       = [GET ''/v1/ingest/list'']
   \<and> getField (jsonBody (fst (deleteAllFilesHandler ''DELETE''
        (GetResponse 200 (Inr noFiles)) (\<lambda>i d. Status 200)))) ''deleted_count'' = Some (JInt 0)
   \<and> getField (jsonBody (fst (deleteAllFilesHandler ''DELETE''
        (GetResponse 200 (Inr noFiles)) (\<lambda>i d. Status 200)))) ''failed_count'' = Some (JInt 0)
   \<and> \<not> hasKey (jsonBody (fst (deleteAllFilesHandler ''DELETE''
        (GetResponse 200 (Inr noFiles)) (\<lambda>i d. Status 200)))) ''total_files''"
proof -
  have e: "Data noFiles = []" by (simp add: noFiles_def)
  show ?thesis
    using e delete_all_empty [OF e, of "\<lambda>i d. Status 200"] by simp
qed

section \<open>Delete-all on a non-empty list\<close>

text \<open>
  Claim C7. For every non-empty upstream list, the loop visits every record, in order.
  The records whose delete does not answer 200 (the request could not be built, the
  network call returned an error, or the status was another one) are the failed ones:
  \<^verbatim>\<open>failed_count\<close> is their number and \<^verbatim>\<open>failed_files\<close> lists their file names
  (\<^verbatim>\<open>"Unknown"\<close> where there is none) in the order of the list. The records whose
  delete answers 200 are counted by \<^verbatim>\<open>deleted_count\<close>. Whatever the outcomes, the
  response has status 200, \<^verbatim>\<open>success\<close> true and \<^verbatim>\<open>total_files\<close> equal to the length
  of the list. (The key \<^verbatim>\<open>failed_files\<close> is left out when nothing failed.)
\<close>

theorem delete_all_accounting:
  assumes "Data listResp \<noteq> []"
  shows "let fs = Data listResp;
             resp = fst (deleteAllFilesHandler ''DELETE'' (GetResponse 200 (Inr listResp)) upstream);
             deleted = [j\<leftarrow>[0..<length fs]. upstream j (DocID (fs ! j)) = Status 200];
             failed = [j\<leftarrow>[0..<length fs]. upstream j (DocID (fs ! j)) \<noteq> Status 200]
         in StatusCode resp = 200
          \<and> getField (jsonBody resp) ''success'' = Some (JBool True)
          \<and> getField (jsonBody resp) ''deleted_count'' = Some (JInt (int (length deleted)))
          \<and> getField (jsonBody resp) ''failed_count'' = Some (JInt (int (length failed)))
          \<and> getField (jsonBody resp) ''total_files'' = Some (JInt (int (length fs)))
          \<and> getField (jsonBody resp) ''failed_files'' =
               (if failed = [] then None
                else Some (JArray (map (\<lambda>j. JString (fileName (fs ! j))) failed)))"
  using deleteAll_fields [OF assms, of upstream]
  by (simp add: Let_def deleteLoop_deleted deleteLoop_failed deleteLoop_failedFiles o_def)

text \<open>Five records, of which the second delete fails on the network and the fourth is
  answered 404: three deleted, two failed, five in total, both names listed.\<close>

theorem delete_all_accounting_witness:
  "Data fiveFiles \<noteq> []
   \<and> StatusCode (fst (deleteAllFilesHandler ''DELETE'' (GetResponse 200 (Inr fiveFiles)) twoFail))
       = 200
   \<and> getField (jsonBody (fst (deleteAllFilesHandler ''DELETE''
        (GetResponse 200 (Inr fiveFiles)) twoFail))) ''success'' = Some (JBool True)
   \<and> getField (jsonBody (fst (deleteAllFilesHandler ''DELETE''
        (GetResponse 200 (Inr fiveFiles)) twoFail))) ''deleted_count'' = Some (JInt 3)
   \<and> getField (jsonBody (fst (deleteAllFilesHandler ''DELETE''
        (GetResponse 200 (Inr fiveFiles)) twoFail))) ''failed_count'' = Some (JInt 2)
   \<and> getField (jsonBody (fst (deleteAllFilesHandler ''DELETE''
        (GetResponse 200 (Inr fiveFiles)) twoFail))) ''total_files'' = Some (JInt 5)
   \<and> getField (jsonBody (fst (deleteAllFilesHandler ''DELETE''
        (GetResponse 200 (Inr fiveFiles)) twoFail))) ''failed_files''
       = Some (JArray [JString ''b.pdf'', JString ''Unknown''])"
proof -
  have ne: "Data fiveFiles \<noteq> []" by (simp add: fiveFiles_def)
  have idx: "[0..<5] = [0, 1, 2, 3, 4]" by (simp add: upt_rec)
  show ?thesis
    using ne delete_all_accounting [OF ne, of twoFail]
    by (simp add: Let_def fiveFiles_def twoFail_def named_def nameless_def fileName_def idx)
qed

text \<open>
  Claim C10. For every non-empty upstream list of N records and every pattern of
  outcomes, the response reports counters d and f with d + f = N = \<^verbatim>\<open>total_files\<close>,
  and the list of failed names has f entries (it is the value of \<^verbatim>\<open>failed_files\<close>,
  which is left out when the list is empty).
\<close>

theorem delete_all_counts_add_up:
  assumes "Data listResp \<noteq> []"
  shows "\<exists>d f names.
           getField (jsonBody (fst (deleteAllFilesHandler ''DELETE''
              (GetResponse 200 (Inr listResp)) upstream))) ''deleted_count'' = Some (JInt (int d))
         \<and> getField (jsonBody (fst (deleteAllFilesHandler ''DELETE''
              (GetResponse 200 (Inr listResp)) upstream))) ''failed_count'' = Some (JInt (int f))
         \<and> getField (jsonBody (fst (deleteAllFilesHandler ''DELETE''
              (GetResponse 200 (Inr listResp)) upstream))) ''total_files''
             = Some (JInt (int (length (Data listResp))))
         \<and> d + f = length (Data listResp)
         \<and> length names = f
         \<and> getField (jsonBody (fst (deleteAllFilesHandler ''DELETE''
              (GetResponse 200 (Inr listResp)) upstream))) ''failed_files''
             = (if names = [] then None else Some (JArray (map JString names)))"
proof -
  let ?init = "\<lparr>deletedCount = 0, failedCount = 0, failedFiles = [],
               calls = [GET ''/v1/ingest/list'']\<rparr>"
  let ?final = "deleteLoop upstream 0 ?init (Data listResp)"
  have inv: "deletedCount ?final + failedCount ?final = int (length (Data listResp))"
      "failedCount ?final = int (length (failedFiles ?final))" "0 \<le> deletedCount ?final"
    using deleteLoop_invariant [where s = ?init and upstream = upstream and i = 0
        and fs = "Data listResp"]
    by simp_all
  define d where "d = nat (deletedCount ?final)"
  define f where "f = length (failedFiles ?final)"
  have "deletedCount ?final = int d" "failedCount ?final = int f"
      "d + f = length (Data listResp)"
    using inv by (simp_all add: d_def f_def)
  with deleteAll_fields [OF assms, of upstream] show ?thesis
    by (intro exI [of _ d] exI [of _ f] exI [of _ "failedFiles ?final"]) (simp add: f_def)
qed

theorem delete_all_counts_add_up_witness:
  "Data fiveFiles \<noteq> []
   \<and> (\<exists>d f names.
           getField (jsonBody (fst (deleteAllFilesHandler ''DELETE''
              (GetResponse 200 (Inr fiveFiles)) twoFail))) ''deleted_count'' = Some (JInt (int d))
         \<and> getField (jsonBody (fst (deleteAllFilesHandler ''DELETE''
              (GetResponse 200 (Inr fiveFiles)) twoFail))) ''failed_count'' = Some (JInt (int f))
         \<and> getField (jsonBody (fst (deleteAllFilesHandler ''DELETE''
              (GetResponse 200 (Inr fiveFiles)) twoFail))) ''total_files'' = Some (JInt 5)
         \<and> d + f = 5
         \<and> length names = f
         \<and> getField (jsonBody (fst (deleteAllFilesHandler ''DELETE''
              (GetResponse 200 (Inr fiveFiles)) twoFail))) ''failed_files''
             = (if names = [] then None else Some (JArray (map JString names))))"
proof -
  have ne: "Data fiveFiles \<noteq> []" by (simp add: fiveFiles_def)
  have len: "length (Data fiveFiles) = 5" by (simp add: fiveFiles_def)
  show ?thesis
    using ne delete_all_counts_add_up [OF ne, of twoFail] by (simp add: len)
qed

section \<open>Upload: the extension check and the size of the file\<close>

text \<open>A file whose lower-cased extension is not in the table is answered 400, and
  nothing is sent upstream.\<close>

lemma upload_rejects_extension:
  assumes "ParseMultipartForm MAX_FILE_SIZE reqBody = Some form"
    and "FormFile form ''file'' = Some header"
    and "ToLower (unicodeLower env) (Ext (Filename header)) \<notin> set allowedExts"
  shows "uploadHandler env ''POST'' reqBody =
           (\<lparr>StatusCode = 400, Body = Text ''File type not supported''\<rparr>, [])"
  using assms by (simp add: uploadHandler_def)

lemma upload_malware:
  "uploadHandler quietEnv ''POST'' (Files [(''file'', ''malware.exe'', 1024)]) =
     (\<lparr>StatusCode = 400, Body = Text ''File type not supported''\<rparr>, [])"
  by (simp add: uploadHandler_def ParseMultipartForm_def FormFile_def MAX_FILE_SIZE_def
      ToLower_def Ext_def isASCII_def lowerByte_def allowedExts_def quietEnv_def)

lemma upload_upper_case_extension:
  "snd (uploadHandler quietEnv ''POST'' (Files [(''file'', ''Report.PDF'', 1024)])) =
     [POST ''/v1/ingest/file'']"
  by code_simp

text \<open>The parser accepts file parts of any length, up to 1000 of them, so the handler
  has no branch that looks at the size.\<close>

lemma ParseMultipartForm_any_length:
  "length ps \<le> 1000 \<Longrightarrow> ParseMultipartForm maxMemory (Files ps) \<noteq> None"
  by (simp add: ParseMultipartForm_def)

text \<open>
  Claim C8. The extension half holds (\<open>upload_rejects_extension\<close>). The size half
  does not: \<^verbatim>\<open>MAX_FILE_SIZE\<close> is passed to \<^verbatim>\<open>ParseMultipartForm\<close> as the amount of
  memory to use, which bounds what is kept in memory and not what is accepted. A
  well-formed upload of a file of 60 MiB with an allowed extension is parsed, passes the
  extension check and is posted to the upstream ingest endpoint; the caller gets the
  upstream's answer.
\<close>

theorem upload_oversized_forwarded:
  "(60 * 2 ^ 20 :: int) > MAX_FILE_SIZE
   \<and> uploadHandler quietEnv ''POST'' (Files [(''file'', ''big.pdf'', 60 * 2 ^ 20)]) =
       (\<lparr>StatusCode = 200, Body = Raw ''{}''\<rparr>, [POST ''/v1/ingest/file''])"
  by (simp add: uploadHandler_def ParseMultipartForm_def FormFile_def MAX_FILE_SIZE_def
      ToLower_def Ext_def isASCII_def lowerByte_def allowedExts_def quietEnv_def)

end
